theory Spec2Isabelle
  imports Main "HOL-Library.Word" "HOL-Library.AList"
begin

section \<open>JavaScript strings\<close>

text \<open>
  A JavaScript string is a sequence of UTF-16 code units; \<open>value.length\<close> counts code
  units. String literals of the source are written \<open>js ''...''\<close>.
\<close>

type_synonym jschar = "16 word"
type_synonym jsstring = "jschar list"

definition cu :: "char \<Rightarrow> jschar" where
  "cu c = of_nat (of_char c)"

definition js :: "string \<Rightarrow> jsstring" where
  "js s = map cu s"

text \<open>
  The code units that ECMAScript counts as WhiteSpace or LineTerminator. The same set is
  matched by the regular-expression class \<open>\s\<close> and stripped by \<open>String.prototype.trim\<close>.
\<close>

definition isWhiteSpace :: "jschar \<Rightarrow> bool" where
  "isWhiteSpace c \<longleftrightarrow>
     (0x0009 \<le> c \<and> c \<le> 0x000D) \<or> c = 0x0020 \<or> c = 0x00A0 \<or> c = 0x1680 \<or>
     (0x2000 \<le> c \<and> c \<le> 0x200A) \<or> c = 0x2028 \<or> c = 0x2029 \<or> c = 0x202F \<or>
     c = 0x205F \<or> c = 0x3000 \<or> c = 0xFEFF"

definition trim :: "jsstring \<Rightarrow> jsstring" where
  "trim s = rev (dropWhile isWhiteSpace (rev (dropWhile isWhiteSpace s)))"

text \<open>The test \<open>!value || value.trim().length === 0\<close> shared by all validators.\<close>

definition isBlank :: "jsstring \<Rightarrow> bool" where
  "isBlank v \<longleftrightarrow> v = [] \<or> length (trim v) = 0"

text \<open>\<open>x || d\<close> for \<open>x\<close> a string or undefined: the default replaces undefined and \<open>''\<close>.\<close>

definition orElse :: "jsstring option \<Rightarrow> jsstring \<Rightarrow> jsstring" where
  "orElse x d = (case x of None \<Rightarrow> d | Some v \<Rightarrow> if v = [] then d else v)"

section \<open>Regular expressions\<close>

text \<open>
  The regular expressions of the source use character classes, concatenation, \<open>?\<close>,
  \<open>+\<close> and \<open>{n,}\<close>, always anchored with \<open>^\<close> and \<open>$\<close> and without flags, so
  \<open>test\<close> asks whether the whole string is in the language. \<open>regex_test\<close> decides
  that by taking derivatives, one code unit at a time.
\<close>

datatype rx =
    Fail
  | Empty
  | Cls "jschar \<Rightarrow> bool"
  | Alt rx rx
  | Cat rx rx
  | Star rx

definition Opt :: "rx \<Rightarrow> rx" where
  "Opt r = Alt r Empty"

definition Plus :: "rx \<Rightarrow> rx" where
  "Plus r = Cat r (Star r)"

primrec Times :: "nat \<Rightarrow> rx \<Rightarrow> rx" where
  "Times 0 r = Empty"
| "Times (Suc n) r = Cat r (Times n r)"

definition AtLeast :: "nat \<Rightarrow> rx \<Rightarrow> rx" where
  "AtLeast n r = Cat (Times n r) (Star r)"

primrec nullable :: "rx \<Rightarrow> bool" where
  "nullable Fail = False"
| "nullable Empty = True"
| "nullable (Cls p) = False"
| "nullable (Alt r s) = (nullable r \<or> nullable s)"
| "nullable (Cat r s) = (nullable r \<and> nullable s)"
| "nullable (Star r) = True"

primrec deriv :: "jschar \<Rightarrow> rx \<Rightarrow> rx" where
  "deriv c Fail = Fail"
| "deriv c Empty = Fail"
| "deriv c (Cls p) = (if p c then Empty else Fail)"
| "deriv c (Alt r s) = Alt (deriv c r) (deriv c s)"
| "deriv c (Cat r s) =
     (if nullable r then Alt (Cat (deriv c r) s) (deriv c s) else Cat (deriv c r) s)"
| "deriv c (Star r) = Cat (deriv c r) (Star r)"

primrec regex_test :: "rx \<Rightarrow> jsstring \<Rightarrow> bool" where
  "regex_test r [] = nullable r"
| "regex_test r (c # cs) = regex_test (deriv c r) cs"

text \<open>The language of a regular expression, as the reference semantics.\<close>

definition cat_lang :: "jsstring set \<Rightarrow> jsstring set \<Rightarrow> jsstring set" where
  "cat_lang A B = {u @ v |u v. u \<in> A \<and> v \<in> B}"

inductive_set star_lang :: "jsstring set \<Rightarrow> jsstring set" for A :: "jsstring set" where
  star_nil: "[] \<in> star_lang A"
| star_more: "u \<in> A \<Longrightarrow> v \<in> star_lang A \<Longrightarrow> u @ v \<in> star_lang A"

primrec lang :: "rx \<Rightarrow> jsstring set" where
  "lang Fail = {}"
| "lang Empty = {[]}"
| "lang (Cls p) = {[c] |c. p c}"
| "lang (Alt r s) = lang r \<union> lang s"
| "lang (Cat r s) = cat_lang (lang r) (lang s)"
| "lang (Star r) = star_lang (lang r)"

definition left_quot :: "jschar \<Rightarrow> jsstring set \<Rightarrow> jsstring set" where
  "left_quot c A = {w. c # w \<in> A}"

section \<open>Validators (src/utils/validation.ts)\<close>

text \<open>The character class \<open>[a-zA-Z\s'-]\<close>.\<close>

definition nameClass :: "jschar \<Rightarrow> bool" where
  "nameClass c \<longleftrightarrow>
     (cu CHR ''a'' \<le> c \<and> c \<le> cu CHR ''z'') \<or> (cu CHR ''A'' \<le> c \<and> c \<le> cu CHR ''Z'') \<or>
     isWhiteSpace c \<or> c = cu CHR 0x27 \<or> c = cu CHR ''-''"

text \<open>\<open>/^[a-zA-Z\s'-]+$/\<close>\<close>

definition nameRegex :: rx where
  "nameRegex = Plus (Cls nameClass)"

definition validateName :: "jsstring \<Rightarrow> jsstring" where
  "validateName v =
     (if isBlank v then js ''This field is required''
      else if length v < 2 then js ''Name must be at least 2 characters''
      else if length v > 50 then js ''Name must not exceed 50 characters''
      else if \<not> regex_test nameRegex v
        then js ''Name can only contain letters, spaces, hyphens, and apostrophes''
      else [])"

text \<open>The character class \<open>[^\s@]\<close>.\<close>

definition notSpaceAt :: "jschar \<Rightarrow> bool" where
  "notSpaceAt c \<longleftrightarrow> \<not> (isWhiteSpace c \<or> c = cu CHR ''@'')"

text \<open>\<open>/^[^\s@]+@[^\s@]+\.[^\s@]+$/\<close>\<close>

definition emailRegex :: rx where
  "emailRegex =
     Cat (Plus (Cls notSpaceAt))
       (Cat (Cls (\<lambda>c. c = cu CHR ''@''))
         (Cat (Plus (Cls notSpaceAt))
           (Cat (Cls (\<lambda>c. c = cu CHR ''.''))
             (Plus (Cls notSpaceAt)))))"

definition validateEmail :: "jsstring \<Rightarrow> jsstring" where
  "validateEmail v =
     (if isBlank v then js ''Email is required''
      else if \<not> regex_test emailRegex v then js ''Please enter a valid email address''
      else [])"

text \<open>The character class \<open>[\s()-]\<close> of the formatting characters removed from a phone number.\<close>

definition formattingClass :: "jschar \<Rightarrow> bool" where
  "formattingClass c \<longleftrightarrow>
     isWhiteSpace c \<or> c = cu CHR ''('' \<or> c = cu CHR '')'' \<or> c = cu CHR ''-''"

text \<open>
  \<open>value.replace(/[\s()-]/g, '')\<close>: every code unit of the class is replaced by the empty
  string, the others are kept in order.
\<close>

definition cleanPhone :: "jsstring \<Rightarrow> jsstring" where
  "cleanPhone v = filter (\<lambda>c. \<not> formattingClass c) v"

text \<open>The class \<open>\d\<close>, which is \<open>[0-9]\<close>.\<close>

definition isDigit :: "jschar \<Rightarrow> bool" where
  "isDigit c \<longleftrightarrow> cu CHR ''0'' \<le> c \<and> c \<le> cu CHR ''9''"

text \<open>\<open>/^\+?[\d]{10,}$/\<close>\<close>

definition phoneRegex :: rx where
  "phoneRegex = Cat (Opt (Cls (\<lambda>c. c = cu CHR ''+''))) (AtLeast 10 (Cls isDigit))"

definition validatePhone :: "jsstring \<Rightarrow> jsstring" where
  "validatePhone v =
     (if isBlank v then js ''Phone number is required''
      else let cleanedPhone = cleanPhone v in
        if \<not> regex_test phoneRegex cleanedPhone
          then js ''Phone number must contain at least 10 digits''
        else [])"

text \<open>
  The router. \<open>validation\<close> is an optional string; the \<open>switch\<close> has cases for
  \<open>'name'\<close>, \<open>'email'\<close> and \<open>'phone'\<close> and a default for everything else.
\<close>

definition validateField :: "jsstring \<Rightarrow> jsstring \<Rightarrow> jsstring option \<Rightarrow> jsstring" where
  "validateField fieldName v validation =
     (if validation = Some (js ''name'') then validateName v
      else if validation = Some (js ''email'') then validateEmail v
      else if validation = Some (js ''phone'') then validatePhone v
      else if isBlank v then js ''This field is required'' else [])"

section \<open>Schema (src/types/user.ts, src/config/userSchema.ts)\<close>

datatype input_type = TextInput | EmailInput | TelInput | DateInput

record SchemaField =
  name :: jsstring
  label :: jsstring
  type :: input_type
  required :: bool
  validation :: "jsstring option"
  placeholder :: "jsstring option"

definition userSchema :: "SchemaField list" where
  "userSchema =
     [\<lparr>name = js ''firstName'', label = js ''First Name'', type = TextInput, required = True,
        validation = Some (js ''name''), placeholder = Some (js ''John'')\<rparr>,
      \<lparr>name = js ''lastName'', label = js ''Last Name'', type = TextInput, required = True,
        validation = Some (js ''name''), placeholder = Some (js ''Doe'')\<rparr>,
      \<lparr>name = js ''email'', label = js ''Email Address'', type = EmailInput, required = True,
        validation = Some (js ''email''), placeholder = Some (js ''john@example.com'')\<rparr>,
      \<lparr>name = js ''phone'', label = js ''Phone Number'', type = TelInput, required = True,
        validation = Some (js ''phone''), placeholder = Some (js ''(555) 123-4567'')\<rparr>]"

section \<open>Objects\<close>

text \<open>
  A plain object with string keys is an association list in insertion order:
  \<open>obj[k]\<close> is \<open>map_of obj k\<close> (\<open>None\<close> for undefined), \<open>obj[k] = v\<close> and
  \<open>{...obj, [k]: v}\<close> are \<open>AList.update k v obj\<close>, which overwrites in place or appends,
  and \<open>Object.values(obj)\<close> is \<open>map snd obj\<close>. Properties inherited from
  \<open>Object.prototype\<close> are not modelled; no schema field name is one of them.
\<close>

type_synonym 'v obj = "(jsstring \<times> 'v) list"
type_synonym UserFormData = "jsstring obj"
type_synonym ValidationErrors = "jsstring obj"

text \<open>\<open>{...a, ...b}\<close>\<close>

definition spread :: "'v obj \<Rightarrow> 'v obj \<Rightarrow> 'v obj" where
  "spread a b = fold (\<lambda>(k, v). AList.update k v) b a"

section \<open>Whole-form validation (src/utils/validation.ts)\<close>

text \<open>The body of \<open>userSchema.forEach\<close> in \<open>validateFormData\<close>.\<close>

definition validateFormData_step ::
  "UserFormData \<Rightarrow> SchemaField \<Rightarrow> ValidationErrors \<Rightarrow> ValidationErrors" where
  "validateFormData_step formData field errors =
     (let v = map_of formData (name field);
          error = validateField (name field) (orElse v []) (validation field)
      in if error \<noteq> [] then AList.update (name field) error errors else errors)"

definition validateFormData :: "UserFormData \<Rightarrow> ValidationErrors" where
  "validateFormData formData = fold (validateFormData_step formData) userSchema []"

definition isFormValid :: "ValidationErrors \<Rightarrow> bool" where
  "isFormValid errors = list_all (\<lambda>error. error = []) (map snd errors)"

section \<open>Form state controller (src/components/UserForm.tsx)\<close>

record form_state =
  formData :: UserFormData
  errors :: ValidationErrors
  touched :: "bool obj"

text \<open>\<open>userSchema.find((field) => field.name === name)\<close> followed by \<open>fieldSchema?.validation\<close>.\<close>

definition fieldValidation :: "jsstring \<Rightarrow> jsstring option" where
  "fieldValidation n =
     (case find (\<lambda>field. name field = n) userSchema of
        None \<Rightarrow> None
      | Some fieldSchema \<Rightarrow> validation fieldSchema)"

definition handleChange :: "jsstring \<Rightarrow> jsstring \<Rightarrow> form_state \<Rightarrow> form_state" where
  "handleChange n v st =
     (let st1 = st\<lparr>formData := AList.update n v (formData st)\<rparr>
      in if map_of (touched st) n = Some True
         then let error = validateField n v (fieldValidation n)
              in st1\<lparr>errors := AList.update n error (errors st1)\<rparr>
         else st1)"

text \<open>
  \<open>handleSubmit\<close> returns the new state and the list of arguments with which it called
  \<open>onSubmit\<close>.
\<close>

definition touchedFields :: "bool obj" where
  "touchedFields = fold (\<lambda>field t. AList.update (name field) True t) userSchema []"

definition handleSubmit :: "form_state \<Rightarrow> form_state \<times> UserFormData list" where
  "handleSubmit st =
     (let newErrors = validateFormData (formData st)
      in if \<not> isFormValid newErrors
         then (st\<lparr>errors := newErrors, touched := spread (touched st) touchedFields\<rparr>, [])
         else (st, [formData st]))"

definition isFormValidNow :: "form_state \<Rightarrow> bool" where
  "isFormValidNow st \<longleftrightarrow>
     isFormValid (errors st) \<and> list_all (\<lambda>v. length (trim v) > 0) (map snd (formData st))"

section \<open>CRUD operations (src/hooks/useUserCRUD.ts)\<close>

record User =
  id :: jsstring
  firstName :: jsstring
  lastName :: jsstring
  email :: jsstring
  phone :: jsstring
  createdAt :: jsstring

record LoadingState =
  list :: bool
  creating :: bool
  updating :: bool
  deleting :: "jsstring option"

record 'a ApiResponse =
  success :: bool
  data :: "'a option"
  error :: "jsstring option"












section \<open>The specification's wording\<close>

text \<open>
  The shape the specification gives for an e-mail address: one or more characters that are
  neither whitespace nor \<open>@\<close>, then \<open>@\<close>, then one or more such characters, then a dot,
  then one or more such characters.
\<close>

definition email_shape :: "jsstring \<Rightarrow> bool" where
  "email_shape v \<longleftrightarrow>
     (\<exists>local domain tld.
        v = local @ [cu CHR ''@''] @ domain @ [cu CHR ''.''] @ tld \<and>
        local \<noteq> [] \<and> list_all notSpaceAt local \<and>
        domain \<noteq> [] \<and> list_all notSpaceAt domain \<and>
        tld \<noteq> [] \<and> list_all notSpaceAt tld)"

text \<open>An optional leading plus sign followed by 10 or more digits.\<close>

definition phone_shape :: "jsstring \<Rightarrow> bool" where
  "phone_shape v \<longleftrightarrow>
     (\<exists>sign digits.
        v = sign @ digits \<and> (sign = [] \<or> sign = [cu CHR ''+'']) \<and>
        10 \<le> length digits \<and> list_all isDigit digits)"

text \<open>
  The characters the specification allows in a name: the letters A-Z and a-z, the space
  character, the hyphen and the apostrophe.
\<close>

definition spec_nameChar :: "jschar \<Rightarrow> bool" where
  "spec_nameChar c \<longleftrightarrow>
     (cu CHR ''a'' \<le> c \<and> c \<le> cu CHR ''z'') \<or> (cu CHR ''A'' \<le> c \<and> c \<le> cu CHR ''Z'') \<or>
     c = cu CHR '' '' \<or> c = cu CHR ''-'' \<or> c = cu CHR 0x27"

definition spec_validateName :: "jsstring \<Rightarrow> jsstring" where
  "spec_validateName v =
     (if v = [] \<or> list_all isWhiteSpace v then js ''This field is required''
      else if length v < 2 then js ''Name must be at least 2 characters''
      else if length v > 50 then js ''Name must not exceed 50 characters''
      else if \<not> list_all spec_nameChar v
        then js ''Name can only contain letters, spaces, hyphens, and apostrophes''
      else [])"

text \<open>The characters the specification removes from a phone number: spaces, parentheses, hyphens.\<close>

definition spec_phoneFormatting :: "jschar \<Rightarrow> bool" where
  "spec_phoneFormatting c \<longleftrightarrow>
     c = cu CHR '' '' \<or> c = cu CHR ''('' \<or> c = cu CHR '')'' \<or> c = cu CHR ''-''"

definition spec_validatePhone :: "jsstring \<Rightarrow> jsstring" where
  "spec_validatePhone v =
     (if v = [] \<or> list_all isWhiteSpace v then js ''Phone number is required''
      else if \<not> phone_shape (filter (\<lambda>c. \<not> spec_phoneFormatting c) v)
        then js ''Phone number must contain at least 10 digits''
      else [])"

text \<open>
  The value the specification validates for a schema field: the draft's entry, or the
  empty string when the key is absent; and the error the field's validator gives for it.
\<close>

definition draftValue :: "UserFormData \<Rightarrow> jsstring \<Rightarrow> jsstring" where
  "draftValue fd n = (case map_of fd n of None \<Rightarrow> [] | Some v \<Rightarrow> v)"

definition fieldError :: "UserFormData \<Rightarrow> SchemaField \<Rightarrow> jsstring" where
  "fieldError fd field = validateField (name field) (draftValue fd (name field)) (validation field)"

section \<open>The regular-expression matcher is correct\<close>

lemma nullable_lang: "nullable r \<longleftrightarrow> [] \<in> lang r"
  by (induction r) (auto simp: cat_lang_def intro: star_nil)

lemma left_quot_simps [simp]:
  "left_quot c {} = {}"
  "left_quot c {[]} = {}"
  "left_quot c (A \<union> B) = left_quot c A \<union> left_quot c B"
  by (auto simp: left_quot_def)

lemma left_quot_cat:
  "left_quot c (cat_lang A B) =
     cat_lang (left_quot c A) B \<union> (if [] \<in> A then left_quot c B else {})"
  by (auto simp: left_quot_def cat_lang_def append_eq_Cons_conv Cons_eq_append_conv)

lemma star_lang_Cons:
  assumes "x \<in> star_lang A" and "x = c # w"
  shows "w \<in> cat_lang (left_quot c A) (star_lang A)"
  using assms
proof (induction arbitrary: w rule: star_lang.induct)
  case star_nil
  then show ?case by simp
next
  case (star_more u v)
  show ?case
  proof (cases u)
    case Nil
    with star_more show ?thesis by simp
  next
    case (Cons a u')
    with star_more have "a = c" and "w = u' @ v" by simp_all
    moreover from Cons star_more \<open>a = c\<close> have "u' \<in> left_quot c A"
      by (simp add: left_quot_def)
    ultimately show ?thesis
      using star_more.hyps(2) by (auto simp: cat_lang_def)
  qed
qed

lemma left_quot_star: "left_quot c (star_lang A) = cat_lang (left_quot c A) (star_lang A)"
proof
  show "left_quot c (star_lang A) \<subseteq> cat_lang (left_quot c A) (star_lang A)"
    using star_lang_Cons by (auto simp: left_quot_def)
next
  show "cat_lang (left_quot c A) (star_lang A) \<subseteq> left_quot c (star_lang A)"
  proof
    fix w assume "w \<in> cat_lang (left_quot c A) (star_lang A)"
    then obtain u v where w: "w = u @ v" and u: "c # u \<in> A" and v: "v \<in> star_lang A"
      by (auto simp: cat_lang_def left_quot_def)
    from star_more [OF u v] show "w \<in> left_quot c (star_lang A)"
      by (simp add: left_quot_def w)
  qed
qed

lemma lang_deriv: "lang (deriv c r) = left_quot c (lang r)"
proof (induction r)
  case (Cls p)
  show ?case by (auto simp: left_quot_def)
next
  case (Cat r s)
  then show ?case by (simp add: left_quot_cat nullable_lang)
next
  case (Star r)
  then show ?case by (simp add: left_quot_star)
qed simp_all

lemma regex_test_lang: "regex_test r s \<longleftrightarrow> s \<in> lang r"
  by (induction s arbitrary: r) (simp_all add: nullable_lang lang_deriv left_quot_def)

section \<open>Blank strings\<close>

lemma trim_empty: "trim s = [] \<longleftrightarrow> list_all isWhiteSpace s"
proof (cases "dropWhile isWhiteSpace s")
  case Nil
  then have "list_all isWhiteSpace s" by (simp add: list_all_iff)
  moreover have "trim s = []" unfolding trim_def Nil by simp
  ultimately show ?thesis by simp
next
  case (Cons a t)
  then have "\<not> isWhiteSpace a" using hd_dropWhile [of isWhiteSpace s] by simp
  moreover have "a \<in> set s" using Cons set_dropWhileD [of a isWhiteSpace s] by simp
  ultimately show ?thesis using Cons
    by (auto simp: trim_def dropWhile_eq_Nil_conv list_all_iff)
qed

lemma isBlank_iff: "isBlank v \<longleftrightarrow> list_all isWhiteSpace v"
  by (auto simp: isBlank_def trim_empty)

section \<open>The languages of the source's regular expressions\<close>

lemma star_cls: "star_lang {[c] |c. p c} = {s. list_all p s}"
proof
  show "star_lang {[c] |c. p c} \<subseteq> {s. list_all p s}"
  proof
    fix s assume "s \<in> star_lang {[c] |c. p c}"
    then show "s \<in> {s. list_all p s}"
      by (induction rule: star_lang.induct) auto
  qed
next
  show "{s. list_all p s} \<subseteq> star_lang {[c] |c. p c}"
  proof
    fix s assume "s \<in> {s. list_all p s}"
    then have "list_all p s" by simp
    then show "s \<in> star_lang {[c] |c. p c}"
    proof (induction s)
      case Nil
      show ?case by (rule star_nil)
    next
      case (Cons a s)
      then have "[a] \<in> {[c] |c. p c}" and "s \<in> star_lang {[c] |c. p c}" by simp_all
      from star_more [OF this] show ?case by simp
    qed
  qed
qed

lemma cat_cls: "cat_lang {[c] |c. p c} B = {c # w |c w. p c \<and> w \<in> B}"
proof -
  have "c # w \<in> cat_lang {[c] |c. p c} B" if "p c" "w \<in> B" for c w
  proof -
    have "[c] @ w \<in> cat_lang {[c] |c. p c} B"
      unfolding cat_lang_def using that by blast
    then show ?thesis by simp
  qed
  moreover have "\<exists>c w. x = c # w \<and> p c \<and> w \<in> B" if "x \<in> cat_lang {[c] |c. p c} B" for x
    using that by (auto simp: cat_lang_def)
  ultimately show ?thesis by blast
qed

lemma lang_plus_cls: "lang (Plus (Cls p)) = {s. s \<noteq> [] \<and> list_all p s}"
proof -
  have "{c # w |c w. p c \<and> w \<in> {s. list_all p s}} = {s. s \<noteq> [] \<and> list_all p s}"
    by (auto simp: neq_Nil_conv)
  then show ?thesis by (simp add: Plus_def star_cls cat_cls)
qed

lemma lang_times_cls: "lang (Times n (Cls p)) = {s. length s = n \<and> list_all p s}"
proof (induction n)
  case 0
  show ?case by auto
next
  case (Suc n)
  have "{c # w |c w. p c \<and> w \<in> {s. length s = n \<and> list_all p s}}
          = {s. length s = Suc n \<and> list_all p s}"
    by (auto simp: length_Suc_conv)
  with Suc show ?case by (simp add: cat_cls)
qed

lemma lang_atleast_cls: "lang (AtLeast n (Cls p)) = {s. n \<le> length s \<and> list_all p s}"
proof -
  have split: "\<exists>u v. s = u @ v \<and> length u = n \<and> list_all p u \<and> list_all p v"
    if "n \<le> length s" "list_all p s" for s
  proof (intro exI conjI)
    show "s = take n s @ drop n s" by simp
    show "length (take n s) = n" using that by simp
    show "list_all p (take n s)" using that by (auto simp: list_all_iff dest: in_set_takeD)
    show "list_all p (drop n s)" using that by (auto simp: list_all_iff dest: in_set_dropD)
  qed
  have "cat_lang {s. length s = n \<and> list_all p s} {s. list_all p s}
          = {s. n \<le> length s \<and> list_all p s}"
  proof
    show "cat_lang {s. length s = n \<and> list_all p s} {s. list_all p s}
            \<subseteq> {s. n \<le> length s \<and> list_all p s}"
      by (auto simp: cat_lang_def)
    show "{s. n \<le> length s \<and> list_all p s}
            \<subseteq> cat_lang {s. length s = n \<and> list_all p s} {s. list_all p s}"
      using split unfolding cat_lang_def by blast
  qed
  then show ?thesis
    by (simp add: AtLeast_def lang_times_cls star_cls)
qed

lemma name_regex_iff: "regex_test nameRegex v \<longleftrightarrow> v \<noteq> [] \<and> list_all nameClass v"
  by (simp add: regex_test_lang nameRegex_def lang_plus_cls)

lemma cat_single: "cat_lang {[a]} B = {a # w |w. w \<in> B}"
  using cat_cls [of "\<lambda>c. c = a" B] by simp

lemma lang_emailRegex:
  "lang emailRegex =
     cat_lang {s. s \<noteq> [] \<and> list_all notSpaceAt s}
       {cu CHR ''@'' # w |w. w \<in>
          cat_lang {s. s \<noteq> [] \<and> list_all notSpaceAt s}
            {cu CHR ''.'' # w |w. w \<in> {s. s \<noteq> [] \<and> list_all notSpaceAt s}}}"
  by (simp add: emailRegex_def lang_plus_cls cat_single)

lemma email_regex_iff: "regex_test emailRegex v \<longleftrightarrow> email_shape v"
proof
  assume "regex_test emailRegex v"
  then show "email_shape v"
    unfolding regex_test_lang lang_emailRegex email_shape_def cat_lang_def by auto
next
  assume "email_shape v"
  then obtain l d t where v: "v = l @ [cu CHR ''@''] @ d @ [cu CHR ''.''] @ t"
    and l: "l \<noteq> []" "list_all notSpaceAt l"
    and d: "d \<noteq> []" "list_all notSpaceAt d"
    and t: "t \<noteq> []" "list_all notSpaceAt t"
    unfolding email_shape_def by blast
  let ?P = "{s. s \<noteq> [] \<and> list_all notSpaceAt s}"
  let ?T = "{cu CHR ''.'' # w |w. w \<in> ?P}"
  let ?D = "{cu CHR ''@'' # w |w. w \<in> cat_lang ?P ?T}"
  have "cu CHR ''.'' # t \<in> ?T" using t by simp
  then have "d @ cu CHR ''.'' # t \<in> cat_lang ?P ?T"
    unfolding cat_lang_def using d by blast
  then have "cu CHR ''@'' # d @ cu CHR ''.'' # t \<in> ?D" by simp
  then have "l @ cu CHR ''@'' # d @ cu CHR ''.'' # t \<in> cat_lang ?P ?D"
    unfolding cat_lang_def using l by blast
  then show "regex_test emailRegex v"
    by (simp add: regex_test_lang lang_emailRegex v)
qed

lemma lang_phoneRegex:
  "lang phoneRegex =
     cat_lang ({[c] |c. c = cu CHR ''+''} \<union> {[]}) {s. 10 \<le> length s \<and> list_all isDigit s}"
  by (simp add: phoneRegex_def Opt_def lang_atleast_cls)

lemma phone_regex_iff: "regex_test phoneRegex v \<longleftrightarrow> phone_shape v"
  unfolding regex_test_lang lang_phoneRegex phone_shape_def cat_lang_def
  by auto

section \<open>The field validators\<close>

text \<open>
  Claim C1, as the specification words it, allows only the space character besides letters,
  hyphen and apostrophe. The class \<open>[a-zA-Z\s'-]\<close> of the source has \<open>\s\<close>, so a name
  with a tab in it is accepted by \<open>validateName\<close> and rejected by the specification's
  wording.
\<close>

theorem validateName_counterexample:
  "validateName (js [CHR ''J'', CHR ''o'', CHR 0x09, CHR ''A'', CHR ''n'', CHR ''n''])
     \<noteq> spec_validateName (js [CHR ''J'', CHR ''o'', CHR 0x09, CHR ''A'', CHR ''n'', CHR ''n''])"
  by code_simp

text \<open>
  Claim C1, amended: \<open>validateName\<close> returns the required error if the value is empty or
  whitespace-only; otherwise the length errors if its length is below 2 or above 50;
  otherwise the character-class error if the value has a code unit outside the letters
  A-Z and a-z, the whitespace characters (everything \<open>\s\<close> matches, the space among
  them), the hyphen and the apostrophe; otherwise the empty string.
\<close>

theorem validateName_whitespace_class:
  "validateName v =
     (if v = [] \<or> list_all isWhiteSpace v then js ''This field is required''
      else if length v < 2 then js ''Name must be at least 2 characters''
      else if length v > 50 then js ''Name must not exceed 50 characters''
      else if \<not> list_all (\<lambda>c. (cu CHR ''a'' \<le> c \<and> c \<le> cu CHR ''z'') \<or>
                               (cu CHR ''A'' \<le> c \<and> c \<le> cu CHR ''Z'') \<or>
                               isWhiteSpace c \<or> c = cu CHR ''-'' \<or> c = cu CHR 0x27) v
        then js ''Name can only contain letters, spaces, hyphens, and apostrophes''
      else [])"
proof -
  have "nameClass = (\<lambda>c. (cu CHR ''a'' \<le> c \<and> c \<le> cu CHR ''z'') \<or>
                               (cu CHR ''A'' \<le> c \<and> c \<le> cu CHR ''Z'') \<or>
                               isWhiteSpace c \<or> c = cu CHR ''-'' \<or> c = cu CHR 0x27)"
    by (auto simp: nameClass_def fun_eq_iff)
  then show ?thesis
    by (auto simp: validateName_def isBlank_iff name_regex_iff)
qed

theorem validateName_whitespace_class_witness:
  "validateName (js ''John123'') = js ''Name can only contain letters, spaces, hyphens, and apostrophes''
   \<and> validateName (js [CHR ''O'', CHR 0x27, CHR ''B'', CHR ''r'', CHR ''i'', CHR ''e'', CHR ''n'']) = []"
proof -
  have "\<not> (js ''John123'' = [] \<or> list_all isWhiteSpace (js ''John123''))" by code_simp
  moreover have "\<not> length (js ''John123'') < 2" "\<not> length (js ''John123'') > 50" by code_simp+
  moreover have "\<not> list_all (\<lambda>c. (cu CHR ''a'' \<le> c \<and> c \<le> cu CHR ''z'') \<or>
                               (cu CHR ''A'' \<le> c \<and> c \<le> cu CHR ''Z'') \<or>
                               isWhiteSpace c \<or> c = cu CHR ''-'' \<or> c = cu CHR 0x27) (js ''John123'')"
    by code_simp
  ultimately have "validateName (js ''John123'') = js ''Name can only contain letters, spaces, hyphens, and apostrophes''"
    using validateName_whitespace_class [of "js ''John123''"] by simp
  moreover have "validateName (js [CHR ''O'', CHR 0x27, CHR ''B'', CHR ''r'', CHR ''i'', CHR ''e'', CHR ''n'']) = []"
    by code_simp
  ultimately show ?thesis by simp
qed

text \<open>
  Claim C8: \<open>validateEmail\<close> returns the required error if the value is empty or
  whitespace-only; otherwise the invalid-format error unless the value is one or more
  characters that are neither whitespace nor \<open>@\<close>, then \<open>@\<close>, then one or more such
  characters, then a dot, then one or more such characters; otherwise the empty string.
\<close>

theorem validateEmail_shape:
  "validateEmail v =
     (if v = [] \<or> list_all isWhiteSpace v then js ''Email is required''
      else if \<not> email_shape v then js ''Please enter a valid email address''
      else [])"
  by (auto simp: validateEmail_def isBlank_iff email_regex_iff)

theorem validateEmail_shape_witness:
  "validateEmail (js ''user@example.com'') = [] \<and> email_shape (js ''user@example.com'') \<and>
   validateEmail (js ''missing@tld'') = js ''Please enter a valid email address'' \<and>
   \<not> email_shape (js ''missing@tld'')"
proof -
  have a: "validateEmail (js ''user@example.com'') = []" by code_simp
  have b: "validateEmail (js ''missing@tld'') = js ''Please enter a valid email address''"
    by code_simp
  have c: "js ''Please enter a valid email address'' \<noteq> []" "js ''Email is required'' \<noteq> []"
    by (simp_all add: js_def)
  have d: "js ''Email is required'' \<noteq> js ''Please enter a valid email address''"
    by code_simp
  from a c validateEmail_shape [of "js ''user@example.com''"]
  have "email_shape (js ''user@example.com'')" by (auto split: if_splits)
  moreover from b c d validateEmail_shape [of "js ''missing@tld''"]
  have "\<not> email_shape (js ''missing@tld'')" by (auto split: if_splits)
  ultimately show ?thesis using a b by simp
qed

text \<open>
  Claim C7, as the specification words it, removes spaces, parentheses and hyphens before
  the digits are counted. The source removes the class \<open>[\s()-]\<close>, so ten digits with a
  tab among them are valid for \<open>validatePhone\<close> and too short in the specification's
  wording.
\<close>

theorem validatePhone_counterexample:
  "validatePhone (js [CHR ''1'', CHR ''2'', CHR ''3'', CHR ''4'', CHR ''5'', CHR 0x09,
                      CHR ''6'', CHR ''7'', CHR ''8'', CHR ''9'', CHR ''0''])
     \<noteq> spec_validatePhone (js [CHR ''1'', CHR ''2'', CHR ''3'', CHR ''4'', CHR ''5'', CHR 0x09,
                               CHR ''6'', CHR ''7'', CHR ''8'', CHR ''9'', CHR ''0''])"
  unfolding spec_validatePhone_def phone_regex_iff [symmetric]
  by code_simp

text \<open>
  Claim C7, amended: \<open>validatePhone\<close> returns the required error if the value is empty or
  whitespace-only; otherwise, after removing every whitespace character (everything \<open>\s\<close>
  matches), parenthesis and hyphen, the too-short error unless the remainder is an optional
  leading plus sign followed by 10 or more digits; otherwise the empty string.
\<close>

theorem validatePhone_whitespace_stripped:
  "validatePhone v =
     (if v = [] \<or> list_all isWhiteSpace v then js ''Phone number is required''
      else if \<not> phone_shape (filter (\<lambda>c. \<not> (isWhiteSpace c \<or> c = cu CHR ''('' \<or>
                                              c = cu CHR '')'' \<or> c = cu CHR ''-'')) v)
        then js ''Phone number must contain at least 10 digits''
      else [])"
  by (auto simp: validatePhone_def isBlank_iff phone_regex_iff cleanPhone_def formattingClass_def)

theorem validatePhone_whitespace_stripped_witness:
  "validatePhone (js ''(555) 123-4567'') = [] \<and>
   phone_shape (filter (\<lambda>c. \<not> (isWhiteSpace c \<or> c = cu CHR ''('' \<or>
                                 c = cu CHR '')'' \<or> c = cu CHR ''-'')) (js ''(555) 123-4567''))"
proof -
  have a: "validatePhone (js ''(555) 123-4567'') = []" by code_simp
  have c: "js ''Phone number must contain at least 10 digits'' \<noteq> []"
    "js ''Phone number is required'' \<noteq> []"
    by (simp_all add: js_def)
  from a c validatePhone_whitespace_stripped [of "js ''(555) 123-4567''"]
  show ?thesis by (auto split: if_splits)
qed

section \<open>The router\<close>

text \<open>
  Claim C2 says that the router, for the validator kind \<open>'date'\<close>, returns no error for the
  empty value. The \<open>switch\<close> has no case for \<open>'date'\<close>, so the default applies and the
  empty value gets the required error.
\<close>

theorem validateField_date_counterexample:
  "validateField (js ''dateOfBirth'') [] (Some (js ''date'')) \<noteq> []"
  by code_simp

text \<open>
  Claim C2, amended: for the validator kind \<open>'date'\<close> the router applies its default, the
  required check: it returns the required error exactly when the value is empty or
  whitespace-only, and no error for every other value, whether or not it is a date.
\<close>

theorem validateField_date_default:
  "validateField fieldName v (Some (js ''date'')) =
     (if v = [] \<or> list_all isWhiteSpace v then js ''This field is required'' else [])"
proof -
  have "js ''date'' \<noteq> js ''name''" "js ''date'' \<noteq> js ''email''" "js ''date'' \<noteq> js ''phone''"
    by code_simp+
  then show ?thesis by (auto simp: validateField_def isBlank_iff)
qed

theorem validateField_date_default_witness:
  "validateField (js ''dateOfBirth'') (js ''not a date'') (Some (js ''date'')) = [] \<and>
   validateField (js ''dateOfBirth'') (js ''  '') (Some (js ''date'')) = js ''This field is required''"
proof -
  have "\<not> (js ''not a date'' = [] \<or> list_all isWhiteSpace (js ''not a date''))" by code_simp
  moreover have "js ''  '' = [] \<or> list_all isWhiteSpace (js ''  '')" by code_simp
  ultimately show ?thesis
    using validateField_date_default [of "js ''dateOfBirth''" "js ''not a date''"]
      validateField_date_default [of "js ''dateOfBirth''" "js ''  ''"]
    by simp
qed

text \<open>
  Claim C10: the result of \<open>validateField\<close> does not depend on the field name; for any two
  field names, any value and any validator kind, absent included, the results are equal.
\<close>

theorem validateField_ignores_fieldName:
  "validateField f1 v kind = validateField f2 v kind"
  by (simp add: validateField_def)

theorem validateField_ignores_fieldName_witness:
  "validateField (js ''firstName'') (js ''bad'') (Some (js ''email''))
     = validateField (js ''email'') (js ''bad'') (Some (js ''email''))"
  by (rule validateField_ignores_fieldName)

section \<open>Whole-form validation\<close>

lemma update_fresh: "k \<notin> fst ` set al \<Longrightarrow> AList.update k v al = al @ [(k, v)]"
  by (induction al) auto

lemma orElse_draftValue: "orElse (map_of fd n) [] = draftValue fd n"
  by (simp add: orElse_def draftValue_def split: option.splits)

lemma validateFormData_step_eq:
  "validateFormData_step fd f errs =
     (if fieldError fd f \<noteq> [] then AList.update (name f) (fieldError fd f) errs else errs)"
  by (simp add: validateFormData_step_def fieldError_def orElse_draftValue)

lemma fold_validateFormData_step:
  assumes "distinct (map name fs)" and "\<forall>f\<in>set fs. name f \<notin> fst ` set acc"
  shows "fold (validateFormData_step fd) fs acc =
           acc @ map (\<lambda>f. (name f, fieldError fd f)) (filter (\<lambda>f. fieldError fd f \<noteq> []) fs)"
  using assms
proof (induction fs arbitrary: acc)
  case Nil
  show ?case by simp
next
  case (Cons f fs)
  show ?case
  proof (cases "fieldError fd f = []")
    case True
    then have "validateFormData_step fd f acc = acc"
      by (simp add: validateFormData_step_eq)
    moreover have "fold (validateFormData_step fd) fs acc =
        acc @ map (\<lambda>f. (name f, fieldError fd f)) (filter (\<lambda>f. fieldError fd f \<noteq> []) fs)"
      using Cons.prems by (intro Cons.IH) simp_all
    ultimately show ?thesis using True by simp
  next
    case False
    let ?acc = "acc @ [(name f, fieldError fd f)]"
    have fresh: "name f \<notin> fst ` set acc" using Cons.prems(2) by simp
    have "name g \<notin> fst ` set ?acc" if g: "g \<in> set fs" for g
    proof -
      from g have "name g \<in> set (map name fs)" by simp
      moreover from Cons.prems(1) have "name f \<notin> set (map name fs)" by simp
      ultimately have "name g \<noteq> name f" by metis
      moreover from g Cons.prems(2) have "name g \<notin> fst ` set acc" by simp
      ultimately show ?thesis by auto
    qed
    then have fr: "\<forall>g\<in>set fs. name g \<notin> fst ` set ?acc" by blast
    have d: "distinct (map name fs)" using Cons.prems(1) by simp
    from d fr have "fold (validateFormData_step fd) fs ?acc =
        ?acc @ map (\<lambda>f. (name f, fieldError fd f)) (filter (\<lambda>f. fieldError fd f \<noteq> []) fs)"
      by (rule Cons.IH)
    moreover have "validateFormData_step fd f acc = ?acc"
      using False fresh by (simp add: validateFormData_step_eq update_fresh)
    ultimately show ?thesis using False by simp
  qed
qed

lemma userSchema_distinct: "distinct (map name userSchema)"
  by code_simp

lemma validateFormData_closed:
  "validateFormData fd =
     map (\<lambda>f. (name f, fieldError fd f)) (filter (\<lambda>f. fieldError fd f \<noteq> []) userSchema)"
  using fold_validateFormData_step [OF userSchema_distinct, of "[]" fd]
  by (simp add: validateFormData_def)

lemma fieldError_cong:
  "map_of fd (name f) = map_of fd' (name f) \<Longrightarrow> fieldError fd f = fieldError fd' f"
  by (simp add: fieldError_def draftValue_def)

lemma isFormValid_validateFormData:
  "isFormValid (validateFormData fd) \<longleftrightarrow> (\<forall>f\<in>set userSchema. fieldError fd f = [])"
  by (auto simp: isFormValid_def validateFormData_closed list_all_iff)

text \<open>
  Claim C3: for every draft, extra keys included, \<open>validateFormData\<close> goes through the
  schema in schema order and validates each schema field's draft value, the empty string
  when the key is absent. The result holds, in schema order, exactly the schema field
  names whose validator rejects, each bound to its non-empty error message. Two drafts
  that agree on the schema's field names give the same result, so keys of the draft that
  are not schema field names neither appear in the result nor influence it.
\<close>

theorem validateFormData_schema_driven:
  "validateFormData fd =
     map (\<lambda>f. (name f, fieldError fd f)) (filter (\<lambda>f. fieldError fd f \<noteq> []) userSchema)
   \<and> fst ` set (validateFormData fd) = {name f |f. f \<in> set userSchema \<and> fieldError fd f \<noteq> []}
   \<and> (\<forall>e \<in> snd ` set (validateFormData fd). e \<noteq> [])
   \<and> ((\<forall>f\<in>set userSchema. map_of fd (name f) = map_of fd' (name f))
        \<longrightarrow> validateFormData fd = validateFormData fd')"
proof (intro conjI impI)
  show "validateFormData fd =
     map (\<lambda>f. (name f, fieldError fd f)) (filter (\<lambda>f. fieldError fd f \<noteq> []) userSchema)"
    by (rule validateFormData_closed)
  have "fst ` set (validateFormData fd) = name ` set (filter (\<lambda>f. fieldError fd f \<noteq> []) userSchema)"
    unfolding validateFormData_closed by (simp add: image_image)
  also have "\<dots> = {name f |f. f \<in> set userSchema \<and> fieldError fd f \<noteq> []}"
    by auto
  finally show "fst ` set (validateFormData fd)
      = {name f |f. f \<in> set userSchema \<and> fieldError fd f \<noteq> []}" .
  have "snd ` set (validateFormData fd)
      = (\<lambda>f. fieldError fd f) ` set (filter (\<lambda>f. fieldError fd f \<noteq> []) userSchema)"
    unfolding validateFormData_closed by (simp add: image_image)
  then show "\<forall>e \<in> snd ` set (validateFormData fd). e \<noteq> []"
    by simp
  assume same: "\<forall>f\<in>set userSchema. map_of fd (name f) = map_of fd' (name f)"
  have eq: "fieldError fd f = fieldError fd' f" if "f \<in> set userSchema" for f
    using same that by (intro fieldError_cong) blast
  have 1: "filter (\<lambda>f. fieldError fd f \<noteq> []) userSchema
             = filter (\<lambda>f. fieldError fd' f \<noteq> []) userSchema"
    using eq by (simp cong: filter_cong)
  have 2: "map (\<lambda>f. (name f, fieldError fd f)) (filter (\<lambda>f. fieldError fd' f \<noteq> []) userSchema)
             = map (\<lambda>f. (name f, fieldError fd' f)) (filter (\<lambda>f. fieldError fd' f \<noteq> []) userSchema)"
    by (rule map_cong) (simp_all add: eq)
  show "validateFormData fd = validateFormData fd'"
    by (simp only: validateFormData_closed 1 2)
qed

theorem validateFormData_schema_driven_witness:
  "validateFormData [(js ''firstName'', js ''Alice''), (js ''nickname'', js ''''), (js ''lastName'', js ''''),
                     (js ''email'', js ''alice@example.com''), (js ''phone'', js ''123'')]
     = validateFormData [(js ''firstName'', js ''Alice''), (js ''lastName'', js ''''),
                     (js ''email'', js ''alice@example.com''), (js ''phone'', js ''123'')]
   \<and> validateFormData [(js ''firstName'', js ''Alice''), (js ''lastName'', js ''''),
                     (js ''email'', js ''alice@example.com''), (js ''phone'', js ''123'')]
     = [(js ''lastName'', js ''This field is required''),
        (js ''phone'', js ''Phone number must contain at least 10 digits'')]"
proof -
  let ?a = "[(js ''firstName'', js ''Alice''), (js ''nickname'', js ''''), (js ''lastName'', js ''''),
             (js ''email'', js ''alice@example.com''), (js ''phone'', js ''123'')]"
  let ?b = "[(js ''firstName'', js ''Alice''), (js ''lastName'', js ''''),
             (js ''email'', js ''alice@example.com''), (js ''phone'', js ''123'')]"
  have "\<forall>f\<in>set userSchema. map_of ?a (name f) = map_of ?b (name f)" by code_simp
  then have "validateFormData ?a = validateFormData ?b"
    by (rule validateFormData_schema_driven
          [of ?a ?b, THEN conjunct2, THEN conjunct2, THEN conjunct2, THEN mp])
  moreover have "validateFormData ?b = [(js ''lastName'', js ''This field is required''),
        (js ''phone'', js ''Phone number must contain at least 10 digits'')]"
    by code_simp
  ultimately show ?thesis by simp
qed

section \<open>The form state controller\<close>

lemma map_of_touchedFields:
  "f \<in> set userSchema \<Longrightarrow> map_of (spread t touchedFields) (name f) = Some True"
  by (auto simp: userSchema_def touchedFields_def spread_def update_conv')

lemma fieldValidation_schema:
  "f \<in> set userSchema \<Longrightarrow> fieldValidation (name f) = validation f"
  by (auto simp: userSchema_def fieldValidation_def js_def cu_def)

text \<open>
  Claim C9: for every field name of the schema and every new value, \<open>handleChange\<close>
  sets that field's entry of the draft and leaves every other entry of the draft and the
  touched flags unchanged. If the field is touched, it stores the error that the field's
  validator gives for the new value under that field's name and leaves every other entry
  of the errors unchanged; if the field is not touched, the errors are unchanged.
\<close>

theorem handleChange_frame:
  assumes "n \<in> name ` set userSchema"
  shows "map_of (formData (handleChange n v st)) n = Some v \<and>
         (\<forall>k. k \<noteq> n \<longrightarrow> map_of (formData (handleChange n v st)) k = map_of (formData st) k) \<and>
         touched (handleChange n v st) = touched st \<and>
         (map_of (touched st) n = Some True \<longrightarrow>
            (\<forall>f\<in>set userSchema. name f = n \<longrightarrow>
               map_of (errors (handleChange n v st)) n = Some (validateField n v (validation f))) \<and>
            (\<forall>k. k \<noteq> n \<longrightarrow> map_of (errors (handleChange n v st)) k = map_of (errors st) k)) \<and>
         (map_of (touched st) n \<noteq> Some True \<longrightarrow> errors (handleChange n v st) = errors st)"
  using fieldValidation_schema
  by (auto simp: handleChange_def Let_def update_conv')

theorem handleChange_frame_witness:
  "js ''email'' \<in> name ` set userSchema \<and>
   handleChange (js ''email'') (js ''bad'')
     \<lparr>formData = [(js ''firstName'', js ''Al''), (js ''email'', js '''')],
      errors = [(js ''firstName'', js '''')],
      touched = [(js ''email'', True)]\<rparr>
   = \<lparr>formData = [(js ''firstName'', js ''Al''), (js ''email'', js ''bad'')],
      errors = [(js ''firstName'', js ''''), (js ''email'', js ''Please enter a valid email address'')],
      touched = [(js ''email'', True)]\<rparr>"
proof -
  let ?st = "\<lparr>formData = [(js ''firstName'', js ''Al''), (js ''email'', js '''')],
      errors = [(js ''firstName'', js '''')],
      touched = [(js ''email'', True)]\<rparr>"
  have n: "js ''email'' \<in> name ` set userSchema" by code_simp
  have t: "touched (handleChange (js ''email'') (js ''bad'') ?st) = touched ?st"
    using handleChange_frame [OF n, of "js ''bad''" ?st] by blast
  have "handleChange (js ''email'') (js ''bad'') ?st
      = \<lparr>formData = [(js ''firstName'', js ''Al''), (js ''email'', js ''bad'')],
      errors = [(js ''firstName'', js ''''), (js ''email'', js ''Please enter a valid email address'')],
      touched = touched (handleChange (js ''email'') (js ''bad'') ?st)\<rparr>"
    by code_simp
  with n t show ?thesis by simp
qed

text \<open>
  Claim C4: \<open>handleSubmit\<close> validates the whole current draft. If some schema field has a
  non-empty error, it stores the computed errors, marks every schema field as touched and
  does not call the submit handler. If no schema field has an error, it calls the submit
  handler once, with the current draft, and leaves the form state as it is.
\<close>

theorem handleSubmit_gate:
  "((\<exists>f\<in>set userSchema. fieldError (formData st) f \<noteq> []) \<longrightarrow>
      errors (fst (handleSubmit st)) = validateFormData (formData st) \<and>
      formData (fst (handleSubmit st)) = formData st \<and>
      (\<forall>f\<in>set userSchema. map_of (touched (fst (handleSubmit st))) (name f) = Some True) \<and>
      snd (handleSubmit st) = [])
   \<and> ((\<forall>f\<in>set userSchema. fieldError (formData st) f = []) \<longrightarrow>
      snd (handleSubmit st) = [formData st] \<and> fst (handleSubmit st) = st)"
proof (cases "isFormValid (validateFormData (formData st))")
  case True
  then have none: "\<forall>f\<in>set userSchema. fieldError (formData st) f = []"
    by (simp add: isFormValid_validateFormData)
  from True have "handleSubmit st = (st, [formData st])"
    by (simp add: handleSubmit_def)
  with none show ?thesis by simp
next
  case False
  then have some: "\<exists>f\<in>set userSchema. fieldError (formData st) f \<noteq> []"
    by (simp add: isFormValid_validateFormData)
  from False have "handleSubmit st =
      (st\<lparr>errors := validateFormData (formData st),
          touched := spread (touched st) touchedFields\<rparr>, [])"
    by (simp add: handleSubmit_def Let_def)
  with some show ?thesis by (simp add: map_of_touchedFields)
qed

theorem handleSubmit_gate_witness:
  "snd (handleSubmit \<lparr>formData = [(js ''firstName'', js ''Alice''), (js ''lastName'', js ''''),
                                 (js ''email'', js ''alice@example.com''), (js ''phone'', js ''1234567890'')],
                      errors = [], touched = []\<rparr>) = []
   \<and> snd (handleSubmit \<lparr>formData = [(js ''firstName'', js ''Alice''), (js ''lastName'', js ''Johnson''),
                                 (js ''email'', js ''alice@example.com''), (js ''phone'', js ''1234567890'')],
                      errors = [], touched = []\<rparr>)
       = [[(js ''firstName'', js ''Alice''), (js ''lastName'', js ''Johnson''),
           (js ''email'', js ''alice@example.com''), (js ''phone'', js ''1234567890'')]]"
proof -
  let ?bad = "\<lparr>formData = [(js ''firstName'', js ''Alice''), (js ''lastName'', js ''''),
                           (js ''email'', js ''alice@example.com''), (js ''phone'', js ''1234567890'')],
                errors = [], touched = []\<rparr>"
  let ?good = "\<lparr>formData = [(js ''firstName'', js ''Alice''), (js ''lastName'', js ''Johnson''),
                           (js ''email'', js ''alice@example.com''), (js ''phone'', js ''1234567890'')],
                errors = [], touched = []\<rparr>"
  have "\<exists>f\<in>set userSchema. fieldError (formData ?bad) f \<noteq> []" by code_simp
  with handleSubmit_gate [of ?bad] have 1: "snd (handleSubmit ?bad) = []" by blast
  have "\<forall>f\<in>set userSchema. fieldError (formData ?good) f = []" by code_simp
  with handleSubmit_gate [of ?good] have "snd (handleSubmit ?good) = [formData ?good]" by blast
  with 1 show ?thesis by simp
qed

text \<open>
  Claim C5: the submit button's condition \<open>isFormValidNow\<close> holds if and only if the
  stored errors have no non-empty entry and every value of the current draft is non-empty
  after trimming whitespace.
\<close>

theorem isFormValidNow_iff:
  "isFormValidNow st \<longleftrightarrow>
     (\<forall>e \<in> snd ` set (errors st). e = []) \<and> (\<forall>v \<in> snd ` set (formData st). trim v \<noteq> [])"
  by (simp add: isFormValidNow_def isFormValid_def list_all_iff)

theorem isFormValidNow_iff_witness:
  "isFormValidNow \<lparr>formData = [(js ''firstName'', js ''Alice''), (js ''lastName'', js ''Johnson'')],
                   errors = [(js ''firstName'', js '''')], touched = []\<rparr>
   \<and> \<not> isFormValidNow \<lparr>formData = [(js ''firstName'', js ''Alice''), (js ''lastName'', js ''  '')],
                   errors = [], touched = []\<rparr>"
proof -
  let ?a = "\<lparr>formData = [(js ''firstName'', js ''Alice''), (js ''lastName'', js ''Johnson'')],
                   errors = [(js ''firstName'', js '''')], touched = []\<rparr>"
  let ?b = "\<lparr>formData = [(js ''firstName'', js ''Alice''), (js ''lastName'', js ''  '')],
                   errors = [], touched = []\<rparr>"
  have "(\<forall>e \<in> snd ` set (errors ?a). e = []) \<and> (\<forall>v \<in> snd ` set (formData ?a). trim v \<noteq> [])"
    by code_simp
  then have 1: "isFormValidNow ?a" using isFormValidNow_iff [of ?a] by blast
  have "\<not> ((\<forall>e \<in> snd ` set (errors ?b). e = []) \<and> (\<forall>v \<in> snd ` set (formData ?b). trim v \<noteq> []))"
    by code_simp
  then have "\<not> isFormValidNow ?b" using isFormValidNow_iff [of ?b] by blast
  with 1 show ?thesis by simp
qed

section \<open>The create operation\<close>










end
